theory Spec2Isabelle
  imports Main "HOL-Library.Sublist"
begin

section \<open>Values, exceptions and output of the player client\<close>

text \<open>
  \<^verbatim>\<open>PlayerClient.py\<close> receives game-state snapshots as decoded JSON, draws them on
  a 5 x 5 character grid centred on the player, and reads the operator's moves.
  The snapshot handed to \<^verbatim>\<open>process_game_state\<close> is whatever
  \<^verbatim>\<open>json.loads\<close> returned, so the model keeps Python's dynamic values: a decoded
  JSON document is a \<open>pyval\<close>. A \<open>char\<close> stands for one character of a Python
  \<^verbatim>\<open>str\<close>. The arithmetic of Python's floats is not fixed here: the type
  \<open>'f\<close> of floats and the operations the program applies to them are a parameter
  (\<open>float_ops\<close>).
\<close>

datatype 'f pyval =
    PNone
  | PBool bool
  | PInt int
  | PFloat 'f
  | PStr string
  | PList "'f pyval list"
  | PDict "(string \<times> 'f pyval) list"

text \<open>
  \<open>PDict\<close> lists the entries of a dict in order; a Python dict holds each key
  once, and a dict decoded from JSON has \<^verbatim>\<open>str\<close> keys only.
\<close>

text \<open>
  The exceptions the program can meet. All but \<open>KeyboardInterrupt\<close> are
  subclasses of Python's \<^verbatim>\<open>Exception\<close>, which is what
  \<^verbatim>\<open>except Exception\<close> catches.
\<close>

datatype exn =
    TypeError
  | ValueError
  | KeyError
  | IndexError
  | AttributeError
  | OverflowError
  | JSONDecodeError
  | UnicodeDecodeError
  | EOFError
  | KeyboardInterrupt

fun is_Exception :: "exn \<Rightarrow> bool" where
  "is_Exception KeyboardInterrupt = False"
| "is_Exception _ = True"

text \<open>How a call ends: it returns, or an exception leaves it.\<close>

datatype completion = Returned | Raised exn

text \<open>
  What \<^verbatim>\<open>print\<close> wrote, one entry per call. \<open>Text s\<close> is a call whose text the
  model spells out. The other constructors stand for the calls that format values
  with \<^verbatim>\<open>str\<close>: the two header lines of \<^verbatim>\<open>on_message\<close> (topic, QoS,
  payload bytes), the line \<^verbatim>\<open>"Error processing game state:", e\<close> (with the
  exception), and the prompt of \<^verbatim>\<open>input\<close> (with the player name).
\<close>

datatype printed =
    Text string
  | MessageHeader string nat string
  | ReceivedHeader string nat
  | ErrorReport exn
  | Prompt string

text \<open>
  The float operations the program uses: the conversion of an int operand to a
  float (\<open>None\<close> when the int is too large, which raises \<^verbatim>\<open>OverflowError\<close>),
  subtraction, addition, and the comparisons \<^verbatim>\<open>i <= f\<close> and \<^verbatim>\<open>f < i\<close> of
  a float with an int.
\<close>

record 'f float_ops =
  float_of_int :: "int \<Rightarrow> 'f option"
  float_sub :: "'f \<Rightarrow> 'f \<Rightarrow> 'f"
  float_add :: "'f \<Rightarrow> 'f \<Rightarrow> 'f"
  int_le_float :: "int \<Rightarrow> 'f \<Rightarrow> bool"
  float_less_int :: "'f \<Rightarrow> int \<Rightarrow> bool"

text \<open>
  An instance for closed examples: floats that hold whole numbers only, with exact
  arithmetic. No float occurs in the examples below.
\<close>

definition whole_floats :: "int float_ops" where
  "whole_floats =
     \<lparr>float_of_int = Some, float_sub = (-), float_add = (+),
      int_le_float = (\<le>), float_less_int = (<)\<rparr>"

text \<open>Sequencing of steps that may raise: the first exception ends the sequence.\<close>

definition and_then :: "exn + 'a \<Rightarrow> ('a \<Rightarrow> exn + 'b) \<Rightarrow> exn + 'b" where
  "and_then m f = (case m of Inl e \<Rightarrow> Inl e | Inr v \<Rightarrow> f v)"

section \<open>The Python operations used by \<^verbatim>\<open>process_game_state\<close>\<close>

text \<open>\<^verbatim>\<open>state.get(key, [])\<close>: only a dict has the method.\<close>

fun py_get :: "'f pyval \<Rightarrow> string \<Rightarrow> 'f pyval \<Rightarrow> exn + 'f pyval" where
  "py_get (PDict kvs) key dflt =
     (case map_of kvs key of None \<Rightarrow> Inr dflt | Some v \<Rightarrow> Inr v)"
| "py_get _ key dflt = Inl AttributeError"

text \<open>\<^verbatim>\<open>v[key]\<close> with a \<^verbatim>\<open>str\<close> key.\<close>

fun getitem_key :: "'f pyval \<Rightarrow> string \<Rightarrow> exn + 'f pyval" where
  "getitem_key (PDict kvs) key =
     (case map_of kvs key of None \<Rightarrow> Inl KeyError | Some v \<Rightarrow> Inr v)"
| "getitem_key _ key = Inl TypeError"

text \<open>
  The position a Python sequence of length \<open>n\<close> gives to index \<open>i\<close>: a negative
  index counts from the end, and an index outside \<open>[-n, n)\<close> raises
  \<^verbatim>\<open>IndexError\<close>.
\<close>

definition seq_index :: "nat \<Rightarrow> int \<Rightarrow> exn + nat" where
  "seq_index n i =
     (let j = (if i < 0 then i + int n else i)
      in if 0 \<le> j \<and> j < int n then Inr (nat j) else Inl IndexError)"

text \<open>
  \<^verbatim>\<open>v[i]\<close> with an int index. A dict decoded from JSON has \<^verbatim>\<open>str\<close> keys
  only, so an int key is never found.
\<close>

fun getitem_int :: "'f pyval \<Rightarrow> int \<Rightarrow> exn + 'f pyval" where
  "getitem_int (PList xs) i = and_then (seq_index (length xs) i) (\<lambda>k. Inr (xs ! k))"
| "getitem_int (PStr s) i = and_then (seq_index (length s) i) (\<lambda>k. Inr (PStr [s ! k]))"
| "getitem_int (PDict kvs) i = Inl KeyError"
| "getitem_int _ i = Inl TypeError"

text \<open>
  What iterating over a value yields: the elements of a list, the keys of a dict,
  the characters of a \<^verbatim>\<open>str\<close>. Nothing else in a decoded document is iterable.
\<close>

fun py_iter :: "'f pyval \<Rightarrow> exn + 'f pyval list" where
  "py_iter (PList xs) = Inr xs"
| "py_iter (PDict kvs) = Inr (map (\<lambda>kv. PStr (fst kv)) kvs)"
| "py_iter (PStr s) = Inr (map (\<lambda>c. PStr [c]) s)"
| "py_iter _ = Inl TypeError"

text \<open>\<^verbatim>\<open>x, y = v\<close>: \<open>v\<close> must be iterable and yield exactly two values.\<close>

definition unpack2 :: "'f pyval \<Rightarrow> exn + ('f pyval \<times> 'f pyval)" where
  "unpack2 v =
     and_then (py_iter v)
       (\<lambda>items. case items of [a, b] \<Rightarrow> Inr (a, b) | _ \<Rightarrow> Inl ValueError)"

text \<open>
  Numbers: a \<^verbatim>\<open>bool\<close> is an int in Python (\<^verbatim>\<open>False\<close> is 0, \<^verbatim>\<open>True\<close> is
  1). \<open>as_int\<close> reads an int-like operand, \<open>as_float\<close> converts an operand for
  float arithmetic.
\<close>

fun as_int :: "'f pyval \<Rightarrow> int option" where
  "as_int (PInt i) = Some i"
| "as_int (PBool b) = Some (if b then 1 else 0)"
| "as_int _ = None"

fun as_float :: "'f float_ops \<Rightarrow> 'f pyval \<Rightarrow> exn + 'f" where
  "as_float F (PFloat f) = Inr f"
| "as_float F (PInt i) =
     (case float_of_int F i of None \<Rightarrow> Inl OverflowError | Some f \<Rightarrow> Inr f)"
| "as_float F (PBool b) =
     (case float_of_int F (if b then 1 else 0) of
        None \<Rightarrow> Inl OverflowError | Some f \<Rightarrow> Inr f)"
| "as_float F _ = Inl TypeError"

fun is_number :: "'f pyval \<Rightarrow> bool" where
  "is_number (PInt i) = True"
| "is_number (PBool b) = True"
| "is_number (PFloat f) = True"
| "is_number _ = False"

text \<open>
  \<^verbatim>\<open>a - b\<close> and \<^verbatim>\<open>a + b\<close> on numbers: two int-like operands give an int,
  otherwise both are converted and the result is a float. Any other operand of
  \<^verbatim>\<open>-\<close> raises \<^verbatim>\<open>TypeError\<close>. The program only adds the int 2 to the result
  of a subtraction, so \<open>py_add\<close> is never asked to concatenate.
\<close>

definition py_arith ::
  "(int \<Rightarrow> int \<Rightarrow> int) \<Rightarrow> ('f \<Rightarrow> 'f \<Rightarrow> 'f) \<Rightarrow> 'f float_ops \<Rightarrow> 'f pyval \<Rightarrow> 'f pyval \<Rightarrow> exn + 'f pyval"
where
  "py_arith iop fop F a b =
     (if \<not> (is_number a \<and> is_number b) then Inl TypeError
      else case (as_int a, as_int b) of
             (Some i, Some j) \<Rightarrow> Inr (PInt (iop i j))
           | _ \<Rightarrow> and_then (as_float F a) (\<lambda>x. and_then (as_float F b) (\<lambda>y. Inr (PFloat (fop x y)))))"

definition py_sub :: "'f float_ops \<Rightarrow> 'f pyval \<Rightarrow> 'f pyval \<Rightarrow> exn + 'f pyval" where
  "py_sub F a b = py_arith (-) (float_sub F) F a b"

definition py_add :: "'f float_ops \<Rightarrow> 'f pyval \<Rightarrow> 'f pyval \<Rightarrow> exn + 'f pyval" where
  "py_add F a b = py_arith (+) (float_add F) F a b"

text \<open>
  The chained comparison \<^verbatim>\<open>lo <= v < hi\<close> with int bounds: \<^verbatim>\<open>v < hi\<close> is
  evaluated only when \<^verbatim>\<open>lo <= v\<close> holds.
\<close>

fun py_between :: "'f float_ops \<Rightarrow> int \<Rightarrow> 'f pyval \<Rightarrow> int \<Rightarrow> exn + bool" where
  "py_between F lo (PInt i) hi = Inr (lo \<le> i \<and> i < hi)"
| "py_between F lo (PBool b) hi =
     Inr (lo \<le> (if b then 1 else 0) \<and> (if b then 1 else 0) < hi)"
| "py_between F lo (PFloat f) hi = Inr (int_le_float F lo f \<and> float_less_int F f hi)"
| "py_between F lo _ hi = Inl TypeError"

text \<open>
  Indexing one of the grid's lists (length \<open>n\<close>) with a computed value: a float is
  not an index.
\<close>

fun list_index :: "nat \<Rightarrow> 'f pyval \<Rightarrow> exn + nat" where
  "list_index n (PInt i) = seq_index n i"
| "list_index n (PBool b) = seq_index n (if b then 1 else 0)"
| "list_index n _ = Inl TypeError"

section \<open>\<^verbatim>\<open>process_game_state\<close>\<close>

type_synonym grid = "char list list"

text \<open>
  \<^verbatim>\<open>[[' ' for _ in range(5)] for _ in range(5)]\<close>, then
  \<^verbatim>\<open>grid[center_x][center_y] = 'P'\<close> with both centres 2. Each row is a list
  of its own.
\<close>

definition center_x :: int where "center_x = 2"
definition center_y :: int where "center_y = 2"

definition empty_grid :: grid where
  "empty_grid = replicate 5 (replicate 5 (CHR '' ''))"

definition set_cell :: "grid \<Rightarrow> nat \<Rightarrow> nat \<Rightarrow> char \<Rightarrow> grid" where
  "set_cell g r c v = g[r := (g ! r)[c := v]]"

definition initial_grid :: grid where
  "initial_grid = set_cell empty_grid (nat center_x) (nat center_y) (CHR ''P'')"

text \<open>
  \<^verbatim>\<open>v - state['currentPosition'][k] + center\<close>, evaluated left to right: the
  lookup of the key, the element \<open>k\<close> of its value, the subtraction, the addition.
\<close>

definition project :: "'f float_ops \<Rightarrow> 'f pyval \<Rightarrow> 'f pyval \<Rightarrow> int \<Rightarrow> int \<Rightarrow> exn + 'f pyval" where
  "project F state v k center =
     and_then (getitem_key state ''currentPosition'') (\<lambda>pos.
     and_then (getitem_int pos k) (\<lambda>p.
     and_then (py_sub F v p) (\<lambda>d.
     py_add F d (PInt center))))"

text \<open>
  \<^verbatim>\<open>grid[e1][e2] = mark\<close>: \<open>e1\<close> is evaluated and the row fetched, then \<open>e2\<close>
  is evaluated and the cell stored.
\<close>

definition store :: "'f float_ops \<Rightarrow> 'f pyval \<Rightarrow> grid \<Rightarrow> 'f pyval \<Rightarrow> 'f pyval \<Rightarrow> char \<Rightarrow> exn + grid" where
  "store F state g x y mark =
     and_then (project F state x 0 center_x) (\<lambda>e1.
     and_then (list_index (length g) e1) (\<lambda>r.
     and_then (project F state y 1 center_y) (\<lambda>e2.
     and_then (list_index (length (g ! r)) e2) (\<lambda>c.
     Inr (set_cell g r c mark)))))"

text \<open>The body of the loop over the coins: unpack, then store \<^verbatim>\<open>'C'\<close> unchecked.\<close>

definition place_coin :: "'f float_ops \<Rightarrow> 'f pyval \<Rightarrow> grid \<Rightarrow> 'f pyval \<Rightarrow> exn + grid" where
  "place_coin F state g coin =
     and_then (unpack2 coin) (\<lambda>(x, y). store F state g x y (CHR ''C''))"

text \<open>
  The body of the loop over the walls: unpack, test
  \<^verbatim>\<open>0 <= e1 < 5 and 0 <= e2 < 5\<close> (the second half only when the first holds),
  and store \<^verbatim>\<open>'W'\<close> when the test holds.
\<close>

definition place_wall :: "'f float_ops \<Rightarrow> 'f pyval \<Rightarrow> grid \<Rightarrow> 'f pyval \<Rightarrow> exn + grid" where
  "place_wall F state g wall =
     and_then (unpack2 wall) (\<lambda>(x, y).
     and_then (project F state x 0 center_x) (\<lambda>e1.
     and_then (py_between F 0 e1 5) (\<lambda>in_x.
     if \<not> in_x then Inr g
     else
       and_then (project F state y 1 center_y) (\<lambda>e2.
       and_then (py_between F 0 e2 5) (\<lambda>in_y.
       if \<not> in_y then Inr g
       else store F state g x y (CHR ''W''))))))"

text \<open>A \<^verbatim>\<open>for\<close> loop over the items, stopping at the first exception.\<close>

fun for_each :: "(grid \<Rightarrow> 'a \<Rightarrow> exn + grid) \<Rightarrow> grid \<Rightarrow> 'a list \<Rightarrow> exn + grid" where
  "for_each body g [] = Inr g"
| "for_each body g (item # items) = and_then (body g item) (\<lambda>g'. for_each body g' items)"

text \<open>
  Lines 87 to 102, the part of the \<^verbatim>\<open>try\<close> body that builds the grid: the
  player at the centre, then the coins, then the walls.
\<close>

definition build_grid :: "'f float_ops \<Rightarrow> 'f pyval \<Rightarrow> exn + grid" where
  "build_grid F state =
     and_then (py_get state ''coins'' (PList [])) (\<lambda>cs.
     and_then (py_iter cs) (\<lambda>coin_items.
     and_then (for_each (place_coin F state) initial_grid coin_items) (\<lambda>g1.
     and_then (py_get state ''walls'' (PList [])) (\<lambda>ws.
     and_then (py_iter ws) (\<lambda>wall_items.
     for_each (place_wall F state) g1 wall_items)))))"

text \<open>
  \<^verbatim>\<open>' '.join(row)\<close>, and the printing of the grid: one line per row, then
  \<^verbatim>\<open>print("\n")\<close>. Standard output is the list of what was printed so far.
\<close>

fun join_row :: "char list \<Rightarrow> string" where
  "join_row [] = []"
| "join_row [c] = [c]"
| "join_row (c # cs) = c # CHR '' '' # join_row cs"

definition print_py :: "printed \<Rightarrow> printed list \<Rightarrow> printed list" where
  "print_py p out = out @ [p]"

fun print_rows :: "grid \<Rightarrow> printed list \<Rightarrow> printed list" where
  "print_rows [] out = out"
| "print_rows (row # rows) out = print_rows rows (print_py (Text (join_row row)) out)"

definition print_grid :: "grid \<Rightarrow> printed list \<Rightarrow> printed list" where
  "print_grid g out = print_py (Text [CHR 0x0A]) (print_rows g out)"

text \<open>
  The whole function: the \<^verbatim>\<open>try\<close> body builds and prints the grid;
  \<^verbatim>\<open>except Exception as e\<close> prints the report for the exceptions it catches,
  and any other exception leaves the function.
\<close>

definition process_game_state ::
  "'f float_ops \<Rightarrow> 'f pyval \<Rightarrow> printed list \<Rightarrow> completion \<times> printed list" where
  "process_game_state F state out =
     (case build_grid F state of
        Inr g \<Rightarrow> (Returned, print_grid g out)
      | Inl e \<Rightarrow>
          if is_Exception e then (Returned, print_py (ErrorReport e) out)
          else (Raised e, out))"

section \<open>\<^verbatim>\<open>on_message\<close>\<close>

text \<open>
  A delivered message: topic, QoS and the payload bytes. The two library calls of
  the handler are parameters: \<open>decode\<close> is \<^verbatim>\<open>bytes.decode\<close> and \<open>loads\<close> is
  \<^verbatim>\<open>json.loads\<close>; either may raise.
\<close>

record message =
  topic :: string
  qos :: nat
  payload :: string

text \<open>
  The branch the \<^verbatim>\<open>if\<close>/\<^verbatim>\<open>elif\<close>/\<^verbatim>\<open>else\<close> chain takes:
  \<^verbatim>\<open>'game_state' in msg.topic\<close> and \<^verbatim>\<open>'scores' in msg.topic\<close> are substring
  tests.
\<close>

datatype branch = StateBranch | ScoresBranch | GenericBranch

definition branch_of :: "string \<Rightarrow> branch" where
  "branch_of t =
     (if sublist ''game_state'' t then StateBranch
      else if sublist ''scores'' t then ScoresBranch
      else GenericBranch)"

definition on_message ::
  "(string \<Rightarrow> exn + string) \<Rightarrow> (string \<Rightarrow> exn + 'f pyval) \<Rightarrow> 'f float_ops \<Rightarrow>
   message \<Rightarrow> printed list \<Rightarrow> completion \<times> printed list" where
  "on_message decode loads F msg out =
     (let out1 = print_py (MessageHeader (topic msg) (qos msg) (payload msg)) out;
          out2 = print_py (ReceivedHeader (topic msg) (qos msg)) out1
      in case decode (payload msg) of
           Inl e \<Rightarrow> (Raised e, out2)
         | Inr text \<Rightarrow>
             (case branch_of (topic msg) of
                StateBranch \<Rightarrow>
                  (case loads text of
                     Inl e \<Rightarrow> (Raised e, out2)
                   | Inr game_state \<Rightarrow> process_game_state F game_state out2)
              | ScoresBranch \<Rightarrow> (Returned, print_py (Text (''Scores: '' @ text)) out2)
              | GenericBranch \<Rightarrow> (Returned, print_py (Text (''Message: '' @ text)) out2)))"

text \<open>
  The main program fixes the lobby (\<^verbatim>\<open>lobby_name = "TestLobby"\<close>) and
  subscribes to three topic filters before it starts the loop; the broker delivers
  to \<^verbatim>\<open>on_message\<close> the messages whose topic matches one of them.
\<close>

definition main_lobby_name :: string where
  "main_lobby_name = ''TestLobby''"

definition lobby_subscription :: string where
  "lobby_subscription = ''games/'' @ main_lobby_name @ ''/lobby''"

definition state_subscription :: string where
  "state_subscription = ''games/'' @ main_lobby_name @ ''/+/game_state''"

definition scores_subscription :: string where
  "scores_subscription = ''games/'' @ main_lobby_name @ ''/scores''"

definition subscriptions :: "string list" where
  "subscriptions = [lobby_subscription, state_subscription, scores_subscription]"

section \<open>\<^verbatim>\<open>user_input_control\<close>\<close>

text \<open>
  What the input loop can change: standard output, and the messages handed to
  \<^verbatim>\<open>client.publish\<close> (topic and payload, in order).
\<close>

record io =
  stdout :: "printed list"
  published :: "(string \<times> string) list"

definition emit :: "printed \<Rightarrow> io \<Rightarrow> io" where
  "emit p w = w\<lparr>stdout := print_py p (stdout w)\<rparr>"

definition publish :: "string \<Rightarrow> string \<Rightarrow> io \<Rightarrow> io" where
  "publish t p w = w\<lparr>published := published w @ [(t, p)]\<rparr>"

text \<open>
  What a call of \<^verbatim>\<open>input\<close> meets: a line typed by the operator, or an
  interrupt while it waits. The operator's session is a finite list of these; at
  its end \<^verbatim>\<open>input\<close> raises \<^verbatim>\<open>EOFError\<close>.
\<close>

datatype input_event = Line string | Interrupt

text \<open>
  The loop. \<open>upper\<close> is \<^verbatim>\<open>str.upper\<close>, a parameter. The result is how the
  function ended, the input left unread, and the final output and publications.
  Only \<^verbatim>\<open>KeyboardInterrupt\<close> is caught.
\<close>

fun user_input_control ::
  "(string \<Rightarrow> string) \<Rightarrow> string \<Rightarrow> string \<Rightarrow> input_event list \<Rightarrow> io \<Rightarrow>
   completion \<times> input_event list \<times> io" where
  "user_input_control upper player_name lobby_name [] w =
     (Raised EOFError, [], emit (Prompt player_name) w)"
| "user_input_control upper player_name lobby_name (Interrupt # rest) w =
     (Returned, rest, emit (Text ''Game interrupted.'') (emit (Prompt player_name) w))"
| "user_input_control upper player_name lobby_name (Line s # rest) w =
     (let move = upper s; w1 = emit (Prompt player_name) w
      in if move \<in> set [''UP'', ''DOWN'', ''LEFT'', ''RIGHT''] then
           user_input_control upper player_name lobby_name rest
             (publish (''games/'' @ lobby_name @ ''/'' @ player_name @ ''/move'') move w1)
         else if move = ''STOP'' then
           (Returned, rest, publish (''games/'' @ lobby_name @ ''/start'') ''STOP'' w1)
         else
           user_input_control upper player_name lobby_name rest
             (emit (Text ''Invalid move. Please try again.'') w1))"

text \<open>\<^verbatim>\<open>str.upper\<close> on ASCII text, for closed examples.\<close>

definition ascii_upper :: "string \<Rightarrow> string" where
  "ascii_upper s =
     map (\<lambda>c. case map_of (zip ''abcdefghijklmnopqrstuvwxyz'' ''ABCDEFGHIJKLMNOPQRSTUVWXYZ'') c of
                None \<Rightarrow> c | Some u \<Rightarrow> u) s"

section \<open>Well-formed snapshots\<close>

text \<open>
  A GameState as the server sends it:
  \<^verbatim>\<open>{currentPosition: [int,int], coins: [[int,int],...], walls: [[int,int],...]}\<close>,
  and the value \<^verbatim>\<open>json.loads\<close> gives for it.
\<close>

record game_state =
  currentPosition :: "int \<times> int"
  coins :: "(int \<times> int) list"
  walls :: "(int \<times> int) list"

definition encode_pair :: "int \<times> int \<Rightarrow> 'f pyval" where
  "encode_pair p = PList [PInt (fst p), PInt (snd p)]"

definition encode :: "game_state \<Rightarrow> 'f pyval" where
  "encode s =
     PDict [(''currentPosition'', encode_pair (currentPosition s)),
            (''coins'', PList (map encode_pair (coins s))),
            (''walls'', PList (map encode_pair (walls s)))]"

text \<open>
  The projected coordinates \<open>(x - px + 2, y - py + 2)\<close> of an entity; whether
  they lie in the view \<open>[0,5)\<close>; whether they are valid list indices, which for
  Python is \<open>[-5,5)\<close>; and the cell such indices select.
\<close>

definition projected :: "game_state \<Rightarrow> int \<times> int \<Rightarrow> int \<times> int" where
  "projected s e =
     (fst e - fst (currentPosition s) + 2, snd e - snd (currentPosition s) + 2)"

definition in_view :: "int \<times> int \<Rightarrow> bool" where
  "in_view p = (0 \<le> fst p \<and> fst p < 5 \<and> 0 \<le> snd p \<and> snd p < 5)"

definition indexable :: "int \<times> int \<Rightarrow> bool" where
  "indexable p = (- 5 \<le> fst p \<and> fst p < 5 \<and> - 5 \<le> snd p \<and> snd p < 5)"

definition wrapped :: "int \<times> int \<Rightarrow> nat \<times> nat" where
  "wrapped p = (nat (fst p mod 5), nat (snd p mod 5))"

definition well_shaped :: "grid \<Rightarrow> bool" where
  "well_shaped g = (length g = 5 \<and> list_all (\<lambda>row. length row = 5) g)"

section \<open>Topic patterns as the specification words them\<close>

text \<open>
  The specification's matching rule, which is the rule by which the broker
  selects the messages it delivers: a topic and a pattern are split at
  \<^verbatim>\<open>/\<close>; a pattern segment \<^verbatim>\<open>+\<close> matches exactly one non-empty segment, any
  other segment must be equal. \<open>inbound t\<close> says that a message with topic \<open>t\<close>
  reaches the handler.
\<close>

fun split_topic :: "string \<Rightarrow> string list" where
  "split_topic [] = [[]]"
| "split_topic (c # cs) =
     (if c = CHR ''/'' then [] # split_topic cs
      else case split_topic cs of
             [] \<Rightarrow> [[c]]
           | seg # segs \<Rightarrow> (c # seg) # segs)"

fun spec_segments_match :: "string list \<Rightarrow> string list \<Rightarrow> bool" where
  "spec_segments_match [] [] = True"
| "spec_segments_match (p # ps) (t # ts) =
     ((if p = ''+'' then t \<noteq> [] else p = t) \<and> spec_segments_match ps ts)"
| "spec_segments_match _ _ = False"

definition spec_matches :: "string \<Rightarrow> string \<Rightarrow> bool" where
  "spec_matches pattern t = spec_segments_match (split_topic pattern) (split_topic t)"

definition inbound :: "string \<Rightarrow> bool" where
  "inbound t = list_ex (\<lambda>p. spec_matches p t) subscriptions"

text \<open>The inverse of \<open>split_topic\<close>, used to read a topic back from its segments.\<close>

fun join_topic :: "string list \<Rightarrow> string" where
  "join_topic [] = []"
| "join_topic [seg] = seg"
| "join_topic (seg # segs) = seg @ CHR ''/'' # join_topic segs"

section \<open>The printed form of a grid\<close>

text \<open>
  What the function prints for a grid of five rows of five cells, written out:
  one line per row, the cells of the row separated by single spaces, and after
  the rows the text of \<^verbatim>\<open>print("\n")\<close>.
\<close>

abbreviation grid_lines :: "grid \<Rightarrow> printed list" where
  "grid_lines g \<equiv>
     map (\<lambda>row. Text [row ! 0, CHR '' '', row ! 1, CHR '' '', row ! 2, CHR '' '',
                      row ! 3, CHR '' '', row ! 4]) g
     @ [Text [CHR 0x0A]]"

section \<open>Facts about the operations\<close>

lemma and_then_Inr [simp]: "and_then (Inr v) f = f v"
  by (simp add: and_then_def)

lemma and_then_Inl [simp]: "and_then (Inl e) f = Inl e"
  by (simp add: and_then_def)

lemma and_then_eq_Inl:
  "and_then m f = Inl e \<longleftrightarrow> m = Inl e \<or> (\<exists>v. m = Inr v \<and> f v = Inl e)"
  by (cases m) simp_all

lemma and_then_eq_Inr:
  "and_then m f = Inr r \<longleftrightarrow> (\<exists>v. m = Inr v \<and> f v = Inr r)"
  by (cases m) simp_all

lemma seq_index_5:
  "seq_index 5 i = (if - 5 \<le> i \<and> i < 5 then Inr (nat (i mod 5)) else Inl IndexError)"
proof -
  have "i < 0 \<Longrightarrow> - 5 \<le> i \<Longrightarrow> i + 5 = i mod 5"
    by (smt (verit) mod_pos_pos_trivial mod_add_self2)
  moreover have "0 \<le> i \<Longrightarrow> i < 5 \<Longrightarrow> i = i mod 5"
    by simp
  ultimately show ?thesis
    by (auto simp: seq_index_def Let_def)
qed

lemma project_encode:
  "project F (encode s) (PInt v) 0 c = Inr (PInt (v - fst (currentPosition s) + c))"
  "project F (encode s) (PInt v) 1 c = Inr (PInt (v - snd (currentPosition s) + c))"
  by (simp_all add: project_def encode_def encode_pair_def seq_index_def py_sub_def py_add_def py_arith_def)

lemma well_shaped_set_cell: "well_shaped g \<Longrightarrow> well_shaped (set_cell g r c v)"
proof (cases "r < length g")
  case True
  assume "well_shaped g"
  with True show ?thesis
    by (auto simp: well_shaped_def set_cell_def list_all_length nth_list_update)
next
  case False
  assume "well_shaped g"
  with False show ?thesis
    by (simp add: set_cell_def list_update_beyond)
qed

lemma set_cell_nth:
  "well_shaped g \<Longrightarrow> r < 5 \<Longrightarrow> c < 5 \<Longrightarrow> i < 5 \<Longrightarrow> j < 5 \<Longrightarrow>
   set_cell g r c v ! i ! j = (if i = r \<and> j = c then v else g ! i ! j)"
  by (auto simp: well_shaped_def set_cell_def list_all_length nth_list_update)

lemma well_shaped_row: "well_shaped g \<Longrightarrow> r < 5 \<Longrightarrow> length (g ! r) = 5"
  by (simp add: well_shaped_def list_all_length)

lemma store_encode:
  assumes "well_shaped g"
  shows "store F (encode s) g (PInt x) (PInt y) m =
     (if indexable (projected s (x, y))
      then Inr (set_cell g (fst (wrapped (projected s (x, y)))) (snd (wrapped (projected s (x, y)))) m)
      else Inl IndexError)"
proof -
  have len: "length g = 5" using assms by (simp add: well_shaped_def)
  have row: "\<And>i. - 5 \<le> i \<Longrightarrow> i < 5 \<Longrightarrow> length (g ! nat (i mod 5)) = 5"
    using assms by (intro well_shaped_row) auto
  show ?thesis
    by (simp add: store_def project_encode len seq_index_5 row center_x_def center_y_def
          indexable_def projected_def wrapped_def)
qed

lemma place_coin_encode:
  "well_shaped g \<Longrightarrow> place_coin F (encode s) g (encode_pair c) =
     (if indexable (projected s c)
      then Inr (set_cell g (fst (wrapped (projected s c))) (snd (wrapped (projected s c))) (CHR ''C''))
      else Inl IndexError)"
  by (cases c) (simp add: place_coin_def unpack2_def encode_pair_def store_encode)

lemma place_wall_encode:
  "well_shaped g \<Longrightarrow> place_wall F (encode s) g (encode_pair w) =
     (if in_view (projected s w)
      then Inr (set_cell g (nat (fst (projected s w))) (nat (snd (projected s w))) (CHR ''W''))
      else Inr g)"
  by (cases w)
     (auto simp: place_wall_def unpack2_def encode_pair_def store_encode project_encode
        center_x_def center_y_def in_view_def indexable_def projected_def wrapped_def)

lemma wrapped_less: "fst (wrapped p) < 5" "snd (wrapped p) < 5"
  by (simp_all add: wrapped_def nat_less_iff)

lemma coins_loop_ok:
  "well_shaped g \<Longrightarrow> list_all (\<lambda>c. indexable (projected s c)) cs \<Longrightarrow>
   \<exists>g'. for_each (place_coin F (encode s)) g (map encode_pair cs) = Inr g' \<and> well_shaped g' \<and>
     (\<forall>i<5. \<forall>j<5. g' ! i ! j =
        (if \<exists>c\<in>set cs. wrapped (projected s c) = (i, j) then CHR ''C'' else g ! i ! j))"
proof (induction cs arbitrary: g)
  case Nil
  then show ?case by simp
next
  case (Cons c cs)
  define g1 where "g1 =
    set_cell g (fst (wrapped (projected s c))) (snd (wrapped (projected s c))) (CHR ''C'')"
  have ws1: "well_shaped g1"
    using Cons.prems(1) by (simp add: g1_def well_shaped_set_cell)
  have rest: "list_all (\<lambda>c. indexable (projected s c)) cs"
    using Cons.prems(2) by simp
  from Cons.IH [OF ws1 rest] obtain g' where
    run: "for_each (place_coin F (encode s)) g1 (map encode_pair cs) = Inr g'"
    and ws': "well_shaped g'"
    and cells: "\<forall>i<5. \<forall>j<5. g' ! i ! j =
        (if \<exists>c\<in>set cs. wrapped (projected s c) = (i, j) then CHR ''C'' else g1 ! i ! j)"
    by blast
  have step: "place_coin F (encode s) g (encode_pair c) = Inr g1"
    using Cons.prems by (simp add: place_coin_encode g1_def)
  have "for_each (place_coin F (encode s)) g (map encode_pair (c # cs)) = Inr g'"
    by (simp add: step run)
  moreover have "\<forall>i<5. \<forall>j<5. g' ! i ! j =
        (if \<exists>c\<in>set (c # cs). wrapped (projected s c) = (i, j) then CHR ''C'' else g ! i ! j)"
  proof (intro allI impI)
    fix i j :: nat
    assume ij: "i < 5" "j < 5"
    have "g1 ! i ! j =
        (if i = fst (wrapped (projected s c)) \<and> j = snd (wrapped (projected s c))
         then CHR ''C'' else g ! i ! j)"
      unfolding g1_def by (rule set_cell_nth [OF Cons.prems(1) wrapped_less ij])
    then have c1: "g1 ! i ! j =
        (if wrapped (projected s c) = (i, j) then CHR ''C'' else g ! i ! j)"
      by (auto simp: prod_eq_iff)
    from cells ij have "g' ! i ! j =
        (if \<exists>c\<in>set cs. wrapped (projected s c) = (i, j) then CHR ''C'' else g1 ! i ! j)"
      by blast
    then show "g' ! i ! j =
        (if \<exists>c\<in>set (c # cs). wrapped (projected s c) = (i, j) then CHR ''C'' else g ! i ! j)"
      by (simp add: c1)
  qed
  ultimately show ?case using ws' by blast
qed

lemma coins_loop_fail:
  "well_shaped g \<Longrightarrow> \<not> list_all (\<lambda>c. indexable (projected s c)) cs \<Longrightarrow>
   for_each (place_coin F (encode s)) g (map encode_pair cs) = Inl IndexError"
proof (induction cs arbitrary: g)
  case Nil
  then show ?case by simp
next
  case (Cons c cs)
  show ?case
  proof (cases "indexable (projected s c)")
    case True
    with Cons.prems have "\<not> list_all (\<lambda>c. indexable (projected s c)) cs"
      by simp
    with Cons.IH [OF well_shaped_set_cell [OF Cons.prems(1)]] True Cons.prems(1)
    show ?thesis
      by (simp add: place_coin_encode)
  next
    case False
    with Cons.prems(1) show ?thesis
      by (simp add: place_coin_encode)
  qed
qed

lemma walls_loop:
  "well_shaped g \<Longrightarrow>
   \<exists>g'. for_each (place_wall F (encode s)) g (map encode_pair ws) = Inr g' \<and> well_shaped g' \<and>
     (\<forall>i<5. \<forall>j<5. g' ! i ! j =
        (if \<exists>w\<in>set ws. projected s w = (int i, int j) then CHR ''W'' else g ! i ! j))"
proof (induction ws arbitrary: g)
  case Nil
  then show ?case by simp
next
  case (Cons w ws)
  define g1 where "g1 =
    (if in_view (projected s w)
     then set_cell g (nat (fst (projected s w))) (nat (snd (projected s w))) (CHR ''W'')
     else g)"
  have ws1: "well_shaped g1"
    using Cons.prems by (simp add: g1_def well_shaped_set_cell)
  have step: "place_wall F (encode s) g (encode_pair w) = Inr g1"
    using Cons.prems by (simp add: place_wall_encode g1_def)
  from Cons.IH [OF ws1] obtain g' where
    run: "for_each (place_wall F (encode s)) g1 (map encode_pair ws) = Inr g'"
    and ws': "well_shaped g'"
    and cells: "\<forall>i<5. \<forall>j<5. g' ! i ! j =
        (if \<exists>w\<in>set ws. projected s w = (int i, int j) then CHR ''W'' else g1 ! i ! j)"
    by blast
  have "for_each (place_wall F (encode s)) g (map encode_pair (w # ws)) = Inr g'"
    by (simp add: step run)
  moreover have "\<forall>i<5. \<forall>j<5. g' ! i ! j =
        (if \<exists>w\<in>set (w # ws). projected s w = (int i, int j) then CHR ''W'' else g ! i ! j)"
  proof (intro allI impI)
    fix i j :: nat
    assume ij: "i < 5" "j < 5"
    have "g1 ! i ! j = (if projected s w = (int i, int j) then CHR ''W'' else g ! i ! j)"
    proof (cases "in_view (projected s w)")
      case True
      then have "nat (fst (projected s w)) < 5" "nat (snd (projected s w)) < 5"
        by (auto simp: in_view_def)
      from set_cell_nth [OF Cons.prems this ij] True show ?thesis
        by (auto simp: g1_def in_view_def prod_eq_iff)
    next
      case False
      with ij show ?thesis
        by (auto simp: g1_def in_view_def)
    qed
    with cells ij show "g' ! i ! j =
        (if \<exists>w\<in>set (w # ws). projected s w = (int i, int j) then CHR ''W'' else g ! i ! j)"
      by simp
  qed
  ultimately show ?case using ws' by blast
qed

lemma well_shaped_initial: "well_shaped initial_grid"
  by (simp add: initial_grid_def empty_grid_def center_x_def center_y_def well_shaped_def
        set_cell_def numeral_eq_Suc)

lemma initial_grid_nth:
  "i < 5 \<Longrightarrow> j < 5 \<Longrightarrow>
   initial_grid ! i ! j = (if i = 2 \<and> j = 2 then CHR ''P'' else CHR '' '')"
proof -
  assume ij: "i < 5" "j < 5"
  have e: "well_shaped empty_grid"
    by (simp add: empty_grid_def well_shaped_def numeral_eq_Suc)
  have "empty_grid ! i ! j = CHR '' ''"
    using ij by (simp add: empty_grid_def)
  with set_cell_nth [OF e _ _ ij, of 2 2 "CHR ''P''"] show ?thesis
    by (simp add: initial_grid_def center_x_def center_y_def)
qed

lemma build_grid_encode:
  "build_grid F (encode s) =
     and_then (for_each (place_coin F (encode s)) initial_grid (map encode_pair (coins s)))
       (\<lambda>g1. for_each (place_wall F (encode s)) g1 (map encode_pair (walls s)))"
  by (simp add: build_grid_def encode_def)

lemma build_grid_fails:
  "\<not> list_all (\<lambda>c. indexable (projected s c)) (coins s) \<Longrightarrow>
   build_grid F (encode s) = Inl IndexError"
  by (simp add: build_grid_encode coins_loop_fail [OF well_shaped_initial])

lemma build_grid_succeeds:
  assumes "list_all (\<lambda>c. indexable (projected s c)) (coins s)"
  shows "\<exists>g. build_grid F (encode s) = Inr g \<and> well_shaped g \<and>
     (\<forall>i<5. \<forall>j<5. g ! i ! j =
        (if \<exists>w\<in>set (walls s). projected s w = (int i, int j) then CHR ''W''
         else if \<exists>c\<in>set (coins s). wrapped (projected s c) = (i, j) then CHR ''C''
         else if i = 2 \<and> j = 2 then CHR ''P'' else CHR '' ''))"
proof -
  from coins_loop_ok [OF well_shaped_initial assms] obtain g1 where
    c: "for_each (place_coin F (encode s)) initial_grid (map encode_pair (coins s)) = Inr g1"
    and ws1: "well_shaped g1"
    and cells1: "\<forall>i<5. \<forall>j<5. g1 ! i ! j =
        (if \<exists>c\<in>set (coins s). wrapped (projected s c) = (i, j) then CHR ''C''
         else initial_grid ! i ! j)"
    by blast
  from walls_loop [OF ws1] obtain g where
    w: "for_each (place_wall F (encode s)) g1 (map encode_pair (walls s)) = Inr g"
    and ws: "well_shaped g"
    and cells: "\<forall>i<5. \<forall>j<5. g ! i ! j =
        (if \<exists>w\<in>set (walls s). projected s w = (int i, int j) then CHR ''W'' else g1 ! i ! j)"
    by blast
  have "build_grid F (encode s) = Inr g"
    by (simp add: build_grid_encode c w)
  moreover have "\<forall>i<5. \<forall>j<5. g ! i ! j =
        (if \<exists>w\<in>set (walls s). projected s w = (int i, int j) then CHR ''W''
         else if \<exists>c\<in>set (coins s). wrapped (projected s c) = (i, j) then CHR ''C''
         else if i = 2 \<and> j = 2 then CHR ''P'' else CHR '' '')"
    using cells cells1 by (simp add: initial_grid_nth)
  ultimately show ?thesis using ws by blast
qed

lemma py_get_raises: "py_get v k d = Inl e \<Longrightarrow> is_Exception e"
  by (cases v) (auto split: option.splits)

lemma getitem_key_raises: "getitem_key v k = Inl e \<Longrightarrow> is_Exception e"
  by (cases v) (auto split: option.splits)

lemma seq_index_raises: "seq_index n i = Inl e \<Longrightarrow> is_Exception e"
  by (auto simp: seq_index_def Let_def split: if_splits)

lemma getitem_int_raises: "getitem_int v i = Inl e \<Longrightarrow> is_Exception e"
  by (cases v) (auto simp: and_then_eq_Inl dest: seq_index_raises)

lemma py_iter_raises: "py_iter v = Inl e \<Longrightarrow> is_Exception e"
  by (cases v) auto

lemma two_items_raises:
  "(case items of [a, b] \<Rightarrow> Inr (a, b) | _ \<Rightarrow> Inl ValueError) = Inl e \<Longrightarrow> is_Exception e"
  by (cases items rule: remdups_adj.cases) (auto split: list.splits)

lemma unpack2_raises: "unpack2 v = Inl e \<Longrightarrow> is_Exception e"
  by (auto simp: unpack2_def and_then_eq_Inl dest: py_iter_raises two_items_raises)

lemma as_float_raises: "as_float F v = Inl e \<Longrightarrow> is_Exception e"
  by (cases v) (auto split: option.splits)

lemma py_arith_raises: "py_arith iop fop F a b = Inl e \<Longrightarrow> is_Exception e"
  by (auto simp: py_arith_def and_then_eq_Inl dest: as_float_raises
        split: if_splits option.splits)

lemma py_between_raises: "py_between F lo v hi = Inl e \<Longrightarrow> is_Exception e"
  by (cases v) auto

lemma list_index_raises: "list_index n v = Inl e \<Longrightarrow> is_Exception e"
  by (cases v) (auto dest: seq_index_raises)

lemma project_raises: "project F state v k c = Inl e \<Longrightarrow> is_Exception e"
  by (auto simp: project_def py_sub_def py_add_def and_then_eq_Inl
        dest: getitem_key_raises getitem_int_raises py_arith_raises)

lemma store_raises: "store F state g x y m = Inl e \<Longrightarrow> is_Exception e"
  by (auto simp: store_def and_then_eq_Inl dest: project_raises list_index_raises)

lemma place_coin_raises: "place_coin F state g coin = Inl e \<Longrightarrow> is_Exception e"
  by (auto simp: place_coin_def and_then_eq_Inl dest: unpack2_raises store_raises)

lemma place_wall_raises: "place_wall F state g wall = Inl e \<Longrightarrow> is_Exception e"
  by (auto simp: place_wall_def and_then_eq_Inl
        dest: unpack2_raises store_raises project_raises py_between_raises split: if_splits)

lemma for_each_raises:
  "(\<And>g item e. body g item = Inl e \<Longrightarrow> is_Exception e) \<Longrightarrow>
   for_each body g items = Inl e \<Longrightarrow> is_Exception e"
  by (induction items arbitrary: g) (auto simp: and_then_eq_Inl)

lemma coins_raise:
  "for_each (place_coin F state) g items = Inl e \<Longrightarrow> is_Exception e"
  using place_coin_raises by (rule for_each_raises)

lemma walls_raise:
  "for_each (place_wall F state) g items = Inl e \<Longrightarrow> is_Exception e"
  using place_wall_raises by (rule for_each_raises)

lemma build_grid_raises: "build_grid F state = Inl e \<Longrightarrow> is_Exception e"
  by (auto simp: build_grid_def and_then_eq_Inl
        dest: py_get_raises py_iter_raises coins_raise walls_raise)

lemma store_shape: "store F state g x y m = Inr g' \<Longrightarrow> well_shaped g \<Longrightarrow> well_shaped g'"
  by (auto simp: store_def and_then_eq_Inr well_shaped_set_cell)

lemma place_coin_shape:
  "place_coin F state g coin = Inr g' \<Longrightarrow> well_shaped g \<Longrightarrow> well_shaped g'"
  by (auto simp: place_coin_def and_then_eq_Inr dest: store_shape)

lemma place_wall_shape:
  "place_wall F state g wall = Inr g' \<Longrightarrow> well_shaped g \<Longrightarrow> well_shaped g'"
  by (auto simp: place_wall_def and_then_eq_Inr dest: store_shape split: if_splits)

lemma for_each_shape:
  "(\<And>g item g'. body g item = Inr g' \<Longrightarrow> well_shaped g \<Longrightarrow> well_shaped g') \<Longrightarrow>
   for_each body g items = Inr g' \<Longrightarrow> well_shaped g \<Longrightarrow> well_shaped g'"
proof (induction items arbitrary: g)
  case Nil
  then show ?case by simp
next
  case (Cons item items)
  from Cons.prems(2) obtain g1 where
    s: "body g item = Inr g1" and r: "for_each body g1 items = Inr g'"
    by (auto simp: and_then_eq_Inr)
  have "well_shaped g1"
    using Cons.prems(1) s Cons.prems(3) by blast
  with Cons.IH Cons.prems(1) r show ?case by blast
qed

lemma coins_shape:
  "for_each (place_coin F state) g items = Inr g' \<Longrightarrow> well_shaped g \<Longrightarrow> well_shaped g'"
  using place_coin_shape by (rule for_each_shape)

lemma walls_shape:
  "for_each (place_wall F state) g items = Inr g' \<Longrightarrow> well_shaped g \<Longrightarrow> well_shaped g'"
  using place_wall_shape by (rule for_each_shape)

lemma build_grid_shape: "build_grid F state = Inr g \<Longrightarrow> well_shaped g"
  by (auto simp: build_grid_def and_then_eq_Inr
        dest!: coins_shape [OF _ well_shaped_initial] dest: walls_shape)

lemma print_rows_append:
  "print_rows g out = out @ map (\<lambda>row. Text (join_row row)) g"
  by (induction g arbitrary: out) (simp_all add: print_py_def)

lemma join_row_5:
  "length row = 5 \<Longrightarrow>
   join_row row = [row ! 0, CHR '' '', row ! 1, CHR '' '', row ! 2, CHR '' '', row ! 3, CHR '' '', row ! 4]"
  by (auto simp: numeral_eq_Suc length_Suc_conv)

lemma print_grid_lines:
  assumes "well_shaped g"
  shows "print_grid g out = out @ grid_lines g"
proof -
  have "map (\<lambda>row. Text (join_row row)) g =
        map (\<lambda>row. Text [row ! 0, CHR '' '', row ! 1, CHR '' '', row ! 2, CHR '' '',
                         row ! 3, CHR '' '', row ! 4]) g"
    using assms by (intro map_cong refl) (simp add: well_shaped_def list_all_iff join_row_5)
  then show ?thesis
    by (simp add: print_grid_def print_py_def print_rows_append)
qed

lemma renders:
  assumes "list_all (\<lambda>c. indexable (projected s c)) (coins s)"
  shows "\<exists>g. well_shaped g \<and>
     (\<forall>out. process_game_state F (encode s) out = (Returned, out @ grid_lines g)) \<and>
     (\<forall>i<5. \<forall>j<5. g ! i ! j =
        (if \<exists>w\<in>set (walls s). projected s w = (int i, int j) then CHR ''W''
         else if \<exists>c\<in>set (coins s). wrapped (projected s c) = (i, j) then CHR ''C''
         else if i = 2 \<and> j = 2 then CHR ''P'' else CHR '' ''))"
proof -
  from build_grid_succeeds [OF assms, of F] obtain g where
    b: "build_grid F (encode s) = Inr g" and ws: "well_shaped g"
    and cells: "\<forall>i<5. \<forall>j<5. g ! i ! j =
        (if \<exists>w\<in>set (walls s). projected s w = (int i, int j) then CHR ''W''
         else if \<exists>c\<in>set (coins s). wrapped (projected s c) = (i, j) then CHR ''C''
         else if i = 2 \<and> j = 2 then CHR ''P'' else CHR '' '')"
    by blast
  have "\<forall>out. process_game_state F (encode s) out = (Returned, out @ grid_lines g)"
    using b print_grid_lines [OF ws] by (simp add: process_game_state_def)
  with ws cells show ?thesis by blast
qed

lemma renders_any:
  assumes "build_grid F state = Inr g"
  shows "process_game_state F state out = (Returned, out @ grid_lines g)"
  using assms print_grid_lines [OF build_grid_shape [OF assms]]
  by (simp add: process_game_state_def)

lemma render_fails:
  assumes "\<not> list_all (\<lambda>c. indexable (projected s c)) (coins s)"
  shows "process_game_state F (encode s) out = (Returned, out @ [ErrorReport IndexError])"
  using build_grid_fails [OF assms, of F] by (simp add: process_game_state_def print_py_def)

lemma in_view_wrapped:
  "in_view p \<Longrightarrow> wrapped p = (i, j) \<longleftrightarrow> p = (int i, int j)"
  by (cases p) (auto simp: in_view_def wrapped_def)

lemma in_view_indexable: "in_view p \<Longrightarrow> indexable p"
  by (simp add: in_view_def indexable_def)

lemma set_cell_marks:
  assumes "\<forall>row\<in>set g. set row \<subseteq> M" and "v \<in> M"
  shows "\<forall>row\<in>set (set_cell g r c v). set row \<subseteq> M"
proof (cases "r < length g")
  case True
  then have "g ! r \<in> set g" by simp
  with assms(1) have "set (g ! r) \<subseteq> M" by blast
  then have new: "set ((g ! r)[c := v]) \<subseteq> M"
    using assms(2) set_update_subset_insert [of "g ! r" c v] by blast
  show ?thesis
  proof
    fix row
    assume "row \<in> set (set_cell g r c v)"
    then have "row \<in> insert ((g ! r)[c := v]) (set g)"
      using set_update_subset_insert [of g r "(g ! r)[c := v]"] by (auto simp: set_cell_def)
    with new assms(1) show "set row \<subseteq> M" by blast
  qed
next
  case False
  then show ?thesis
    using assms(1) by (simp add: set_cell_def list_update_beyond)
qed

lemma for_each_keeps:
  "(\<And>g item g'. body g item = Inr g' \<Longrightarrow> I g \<Longrightarrow> I g') \<Longrightarrow>
   for_each body g items = Inr g' \<Longrightarrow> I g \<Longrightarrow> I g'"
proof (induction items arbitrary: g)
  case Nil
  then show ?case by simp
next
  case (Cons item items)
  from Cons.prems(2) obtain g1 where
    s: "body g item = Inr g1" and r: "for_each body g1 items = Inr g'"
    by (auto simp: and_then_eq_Inr)
  have "I g1"
    using Cons.prems(1) s Cons.prems(3) by blast
  with Cons.IH Cons.prems(1) r show ?case by blast
qed

lemma store_marks:
  assumes "store F state g x y m = Inr g'" and "m \<in> M"
    and "\<forall>row\<in>set g. set row \<subseteq> M"
  shows "\<forall>row\<in>set g'. set row \<subseteq> M"
proof -
  from assms(1) obtain r c where "g' = set_cell g r c m"
    by (auto simp: store_def and_then_eq_Inr)
  then show ?thesis
    using set_cell_marks [OF assms(3,2)] by simp
qed

lemma place_coin_marks:
  assumes "place_coin F state g coin = Inr g'" and "CHR ''C'' \<in> M"
    and "\<forall>row\<in>set g. set row \<subseteq> M"
  shows "\<forall>row\<in>set g'. set row \<subseteq> M"
proof -
  from assms(1) obtain x y where "store F state g x y (CHR ''C'') = Inr g'"
    by (auto simp: place_coin_def and_then_eq_Inr)
  then show ?thesis
    using assms(2,3) by (rule store_marks)
qed

lemma place_wall_marks:
  assumes "place_wall F state g wall = Inr g'" and "CHR ''W'' \<in> M"
    and "\<forall>row\<in>set g. set row \<subseteq> M"
  shows "\<forall>row\<in>set g'. set row \<subseteq> M"
proof -
  from assms(1) have "g' = g \<or> (\<exists>x y. store F state g x y (CHR ''W'') = Inr g')"
    by (auto simp: place_wall_def and_then_eq_Inr split: if_splits)
  then show ?thesis
    using assms(2,3) store_marks by blast
qed

lemma initial_grid_marks:
  "\<forall>row\<in>set initial_grid. set row \<subseteq> {CHR '' '', CHR ''P'', CHR ''C'', CHR ''W''}"
  by (simp add: initial_grid_def empty_grid_def set_cell_def center_x_def center_y_def
        numeral_eq_Suc)

lemma build_grid_marks:
  assumes "build_grid F state = Inr g"
  shows "\<forall>row\<in>set g. set row \<subseteq> {CHR '' '', CHR ''P'', CHR ''C'', CHR ''W''}"
proof -
  let ?M = "{CHR '' '', CHR ''P'', CHR ''C'', CHR ''W''}"
  let ?I = "\<lambda>g. \<forall>row\<in>set g. set row \<subseteq> ?M"
  from assms obtain cs ws g1 where
    c: "for_each (place_coin F state) initial_grid cs = Inr g1"
    and w: "for_each (place_wall F state) g1 ws = Inr g"
    by (auto simp: build_grid_def and_then_eq_Inr)
  have "?I g1"
  proof (rule for_each_keeps [where I = ?I, OF _ c initial_grid_marks])
    fix g item g'
    assume "place_coin F state g item = Inr g'" and "?I g"
    then show "?I g'"
      using place_coin_marks [of F state g item g' ?M] by simp
  qed
  show "?I g"
  proof (rule for_each_keeps [where I = ?I, OF _ w \<open>?I g1\<close>])
    fix g item g'
    assume "place_wall F state g item = Inr g'" and "?I g"
    then show "?I g'"
      using place_wall_marks [of F state g item g' ?M] by simp
  qed
qed

lemma split_topic_nonempty: "split_topic t \<noteq> []"
  by (induction t) (auto split: list.splits)

lemma join_split: "join_topic (split_topic t) = t"
proof (induction t)
  case Nil
  show ?case by simp
next
  case (Cons c cs)
  obtain seg segs where s: "split_topic cs = seg # segs"
    using split_topic_nonempty [of cs] by (cases "split_topic cs") auto
  with Cons show ?case
    by (cases segs) auto
qed

lemma split_length_sep:
  "length (split_topic (a @ CHR ''/'' # b)) = length (split_topic a) + length (split_topic b)"
  by (induction a) (auto split: list.splits simp: split_topic_nonempty)

lemma split_segment:
  "CHR ''/'' \<notin> set P \<Longrightarrow> split_topic (P @ CHR ''/'' # rest) = P # split_topic rest"
  by (induction P) auto

lemma spec_segments_match_length: "spec_segments_match ps ts \<Longrightarrow> length ps = length ts"
  by (induction ps ts rule: spec_segments_match.induct) auto

lemma split_lobby_subscription:
  "split_topic lobby_subscription = [''games'', ''TestLobby'', ''lobby'']"
  by (simp add: lobby_subscription_def main_lobby_name_def)

lemma split_scores_subscription:
  "split_topic scores_subscription = [''games'', ''TestLobby'', ''scores'']"
  by (simp add: scores_subscription_def main_lobby_name_def)

lemma split_state_subscription:
  "split_topic state_subscription = [''games'', ''TestLobby'', ''+'', ''game_state'']"
  by (simp add: state_subscription_def main_lobby_name_def)

lemma match3:
  "spec_segments_match [a, b, c] ts \<Longrightarrow> a \<noteq> ''+'' \<Longrightarrow> b \<noteq> ''+'' \<Longrightarrow> c \<noteq> ''+'' \<Longrightarrow>
   ts = [a, b, c]"
  by (cases ts rule: remdups_adj.cases; simp; cases "tl (tl ts)"; simp; cases "tl (tl (tl ts))"; simp)

lemma matches_lobby:
  "spec_matches lobby_subscription t \<Longrightarrow> t = ''games/TestLobby/lobby''"
proof -
  assume "spec_matches lobby_subscription t"
  then have "split_topic t = [''games'', ''TestLobby'', ''lobby'']"
    by (auto simp: spec_matches_def split_lobby_subscription dest!: match3)
  then have "join_topic (split_topic t) = ''games/TestLobby/lobby''"
    by simp
  then show ?thesis by (simp only: join_split)
qed

lemma matches_scores:
  "spec_matches scores_subscription t \<Longrightarrow> t = ''games/TestLobby/scores''"
proof -
  assume "spec_matches scores_subscription t"
  then have "split_topic t = [''games'', ''TestLobby'', ''scores'']"
    by (auto simp: spec_matches_def split_scores_subscription dest!: match3)
  then have "join_topic (split_topic t) = ''games/TestLobby/scores''"
    by simp
  then show ?thesis by (simp only: join_split)
qed

lemma match_state_segments:
  "spec_segments_match [''games'', ''TestLobby'', ''+'', ''game_state''] ts \<Longrightarrow>
   \<exists>P. P \<noteq> [] \<and> ts = [''games'', ''TestLobby'', P, ''game_state'']"
  by (cases ts rule: remdups_adj.cases; simp; cases "tl (tl ts)"; simp;
      cases "tl (tl (tl ts))"; simp; cases "tl (tl (tl (tl ts)))"; simp)

lemma matches_state:
  "spec_matches state_subscription t \<Longrightarrow>
   \<exists>P. P \<noteq> [] \<and> t = ''games/TestLobby/'' @ P @ ''/game_state''"
proof -
  assume "spec_matches state_subscription t"
  then obtain P where P: "P \<noteq> []"
    and "split_topic t = [''games'', ''TestLobby'', P, ''game_state'']"
    by (auto simp: spec_matches_def split_state_subscription dest!: match_state_segments)
  then have "join_topic (split_topic t) = ''games/TestLobby/'' @ P @ ''/game_state''"
    by simp
  then have "t = ''games/TestLobby/'' @ P @ ''/game_state''"
    by (simp only: join_split)
  with P show ?thesis by blast
qed

lemma branch_of_state_topic:
  "branch_of (''games/TestLobby/'' @ P @ ''/game_state'') = StateBranch"
proof -
  have "sublist ''game_state'' ((''games/TestLobby/'' @ P @ ''/'') @ ''game_state'')"
    by (rule sublist_append_leftI)
  then show ?thesis
    by (simp add: branch_of_def)
qed

lemma state_topic_matches:
  assumes "P \<noteq> []" and "CHR ''/'' \<notin> set P"
  shows "spec_matches state_subscription (''games/'' @ main_lobby_name @ ''/'' @ P @ ''/game_state'')"
proof -
  have "split_topic (''games/'' @ main_lobby_name @ ''/'' @ P @ ''/game_state'')
        = [''games'', ''TestLobby'', P, ''game_state'']"
    using split_segment [OF assms(2), of "''game_state''"]
    by (simp add: main_lobby_name_def)
  with assms(1) show ?thesis
    by (simp add: spec_matches_def split_state_subscription)
qed

lemma extra_segment_length:
  "5 \<le> length (split_topic (''games/'' @ main_lobby_name @ ''/'' @ P @ ''/'' @ Q @ ''/game_state''))"
proof -
  have "length (split_topic (''games/TestLobby'' @ CHR ''/'' # (P @ CHR ''/'' # (Q @ CHR ''/'' # ''game_state''))))
      = 2 + (length (split_topic P) + (length (split_topic Q) + 1))"
    by (simp only: split_length_sep) simp
  moreover have "1 \<le> length (split_topic P)" "1 \<le> length (split_topic Q)"
    using split_topic_nonempty [of P] split_topic_nonempty [of Q]
    by (simp_all add: Suc_le_eq)
  ultimately show ?thesis
    by (simp add: main_lobby_name_def)
qed

lemma extra_segment_not_inbound:
  "\<not> inbound (''games/'' @ main_lobby_name @ ''/'' @ P @ ''/'' @ Q @ ''/game_state'')"
proof -
  let ?t = "''games/'' @ main_lobby_name @ ''/'' @ P @ ''/'' @ Q @ ''/game_state''"
  have "\<not> spec_matches p ?t" if "length (split_topic p) < 5" for p
    using that extra_segment_length [of P Q] spec_segments_match_length [of "split_topic p" "split_topic ?t"]
    by (auto simp: spec_matches_def)
  then show ?thesis
    by (simp add: inbound_def subscriptions_def split_lobby_subscription
          split_scores_subscription split_state_subscription)
qed

section \<open>The claims\<close>

text \<open>
  In the statements below a snapshot is an encoded GameState, and what the
  function prints is written out with \<open>grid_lines\<close>.
\<close>

text \<open>
  C1 at the specification's scenario, with a wall in view added: the coin at
  \<open>[10,10]\<close> seen from \<open>[0,0]\<close> is not omitted. Its row index 12 raises
  \<^verbatim>\<open>IndexError\<close>, the handler reports it, and no grid is printed, so the wall
  in view is not rendered either.
\<close>

theorem coin_out_of_range_reported:
  "process_game_state whole_floats
     (encode \<lparr>currentPosition = (0, 0), coins = [(10, 10)], walls = [(1, 1)]\<rparr>) []
     = (Returned, [ErrorReport IndexError])"
  by code_simp

text \<open>
  C2, as the code has it. The player marker is stored first, and the coins and the
  walls are stored after it with no test for the centre, so the player has no
  precedence. For every snapshot whose coins all project into the view: the grid
  is printed, and its cell \<open>(2,2)\<close> shows \<open>W\<close> when a wall projects to
  \<open>(2,2)\<close>, otherwise \<open>C\<close> when a coin projects to \<open>(2,2)\<close>, and \<open>P\<close> only
  when neither does.
\<close>

theorem center_cell:
  assumes "\<forall>c\<in>set (coins s). in_view (projected s c)"
  shows "\<exists>g. well_shaped g \<and>
     process_game_state F (encode s) out = (Returned, out @ grid_lines g) \<and>
     g ! 2 ! 2 =
       (if \<exists>w\<in>set (walls s). projected s w = (2, 2) then CHR ''W''
        else if \<exists>c\<in>set (coins s). projected s c = (2, 2) then CHR ''C''
        else CHR ''P'')"
proof -
  have ok: "list_all (\<lambda>c. indexable (projected s c)) (coins s)"
    using assms by (simp add: list_all_iff in_view_indexable)
  from renders [OF ok, of F] obtain g where
    ws: "well_shaped g"
    and pr: "\<forall>out. process_game_state F (encode s) out = (Returned, out @ grid_lines g)"
    and cells: "\<forall>i<5. \<forall>j<5. g ! i ! j =
        (if \<exists>w\<in>set (walls s). projected s w = (int i, int j) then CHR ''W''
         else if \<exists>c\<in>set (coins s). wrapped (projected s c) = (i, j) then CHR ''C''
         else if i = 2 \<and> j = 2 then CHR ''P'' else CHR '' '')"
    by blast
  have eq: "(\<exists>c\<in>set (coins s). wrapped (projected s c) = (2, 2)) \<longleftrightarrow>
            (\<exists>c\<in>set (coins s). projected s c = (2, 2))"
    using assms in_view_wrapped [of _ 2 2] by auto
  have "g ! 2 ! 2 =
       (if \<exists>w\<in>set (walls s). projected s w = (2, 2) then CHR ''W''
        else if \<exists>c\<in>set (coins s). wrapped (projected s c) = (2, 2) then CHR ''C''
        else CHR ''P'')"
    using cells [rule_format, of 2 2] by simp
  then have "g ! 2 ! 2 =
       (if \<exists>w\<in>set (walls s). projected s w = (2, 2) then CHR ''W''
        else if \<exists>c\<in>set (coins s). projected s c = (2, 2) then CHR ''C''
        else CHR ''P'')"
    unfolding eq .
  with ws pr show ?thesis by blast
qed

theorem center_cell_witness:
  "in_view (projected \<lparr>currentPosition = (3, 3), coins = [(3, 3), (3, 4)], walls = [(2, 3)]\<rparr> (3, 3)) \<and>
   in_view (projected \<lparr>currentPosition = (3, 3), coins = [(3, 3), (3, 4)], walls = [(2, 3)]\<rparr> (3, 4)) \<and>
   (\<exists>g. well_shaped g \<and>
      process_game_state whole_floats
        (encode \<lparr>currentPosition = (3, 3), coins = [(3, 3), (3, 4)], walls = [(2, 3)]\<rparr>) []
        = (Returned, [] @ grid_lines g) \<and>
      g ! 2 ! 2 = CHR ''C'') \<and>
   process_game_state whole_floats
     (encode \<lparr>currentPosition = (3, 3), coins = [(3, 3), (3, 4)], walls = [(2, 3)]\<rparr>) []
     = (Returned, [Text ''         '', Text ''    W    '', Text ''    C C  '',
                   Text ''         '', Text ''         '', Text [CHR 0x0A]])"
proof -
  let ?s = "\<lparr>currentPosition = (3, 3), coins = [(3, 3), (3, 4)], walls = [(2, 3)]\<rparr>"
  have v: "\<forall>c\<in>set (coins ?s). in_view (projected ?s c)"
    by (simp add: in_view_def projected_def)
  have e: "process_game_state whole_floats (encode ?s) []
     = (Returned, [Text ''         '', Text ''    W    '', Text ''    C C  '',
                   Text ''         '', Text ''         '', Text [CHR 0x0A]])"
    by code_simp
  from center_cell [OF v, of whole_floats "[]"]
  have "\<exists>g. well_shaped g \<and>
      process_game_state whole_floats (encode ?s) [] = (Returned, [] @ grid_lines g) \<and>
      g ! 2 ! 2 = CHR ''C''"
    by (simp add: projected_def)
  with v e show ?thesis by simp
qed

text \<open>
  C2 as stated fails: a coin on the player's own position leaves \<open>C\<close>, not
  \<open>P\<close>, at the centre of the printed grid.
\<close>

theorem center_overwritten_counterexample:
  "process_game_state whole_floats
     (encode \<lparr>currentPosition = (0, 0), coins = [(0, 0)], walls = []\<rparr>) []
     = (Returned, [Text ''         '', Text ''         '', Text ''    C    '',
                   Text ''         '', Text ''         '', Text [CHR 0x0A]])"
  by code_simp

text \<open>
  C3 at a payload that does not parse: \<^verbatim>\<open>json.loads\<close> is called outside
  any \<^verbatim>\<open>try\<close>, so its exception leaves \<^verbatim>\<open>on_message\<close>; nothing but the
  two header lines has been printed.
\<close>

theorem parse_failure_propagates:
  assumes "decode (payload msg) = Inr text"
    and "sublist ''game_state'' (topic msg)"
    and "loads text = Inl e"
  shows "on_message decode loads F msg out =
         (Raised e,
          out @ [MessageHeader (topic msg) (qos msg) (payload msg),
                 ReceivedHeader (topic msg) (qos msg)])"
  using assms by (simp add: on_message_def branch_of_def print_py_def)

theorem parse_failure_propagates_witness:
  "on_message Inr (\<lambda>text. Inl JSONDecodeError) whole_floats
     \<lparr>topic = ''games/TestLobby/Player1/game_state'', qos = 1, payload = ''{not json''\<rparr> [] =
   (Raised JSONDecodeError,
    [MessageHeader ''games/TestLobby/Player1/game_state'' 1 ''{not json'',
     ReceivedHeader ''games/TestLobby/Player1/game_state'' 1])"
proof -
  have s: "sublist ''game_state'' ''games/TestLobby/Player1/game_state''"
    by (simp add: sublist_Cons_right)
  from parse_failure_propagates [of Inr
      "\<lparr>topic = ''games/TestLobby/Player1/game_state'', qos = 1, payload = ''{not json''\<rparr>"
      "''{not json''" "\<lambda>text. Inl JSONDecodeError" JSONDecodeError whole_floats "[]"] s
  show ?thesis by simp
qed

text \<open>
  C4. For every topic the broker delivers for the program's subscriptions, the
  handler does what the segment rule says. A topic matching
  \<^verbatim>\<open>games/TestLobby/lobby\<close> is printed by the generic path only. A topic
  matching \<^verbatim>\<open>games/TestLobby/scores\<close> is printed by the scores path. A topic
  matching \<^verbatim>\<open>games/TestLobby/+/game_state\<close> has its payload parsed and handed
  to \<^verbatim>\<open>process_game_state\<close>, and every non-empty segment \<open>P\<close> gives such a
  topic. A topic \<^verbatim>\<open>games/TestLobby/P/Q/game_state\<close> matches none of the
  subscriptions, so it never reaches the handler.
\<close>

theorem inbound_routing:
  "(spec_matches lobby_subscription (topic msg) \<longrightarrow>
      on_message decode loads F msg out =
        (case decode (payload msg) of
           Inl e \<Rightarrow>
             (Raised e, out @ [MessageHeader (topic msg) (qos msg) (payload msg),
                               ReceivedHeader (topic msg) (qos msg)])
         | Inr text \<Rightarrow>
             (Returned, out @ [MessageHeader (topic msg) (qos msg) (payload msg),
                               ReceivedHeader (topic msg) (qos msg),
                               Text (''Message: '' @ text)]))) \<and>
   (spec_matches scores_subscription (topic msg) \<longrightarrow>
      on_message decode loads F msg out =
        (case decode (payload msg) of
           Inl e \<Rightarrow>
             (Raised e, out @ [MessageHeader (topic msg) (qos msg) (payload msg),
                               ReceivedHeader (topic msg) (qos msg)])
         | Inr text \<Rightarrow>
             (Returned, out @ [MessageHeader (topic msg) (qos msg) (payload msg),
                               ReceivedHeader (topic msg) (qos msg),
                               Text (''Scores: '' @ text)]))) \<and>
   (spec_matches state_subscription (topic msg) \<longrightarrow>
      on_message decode loads F msg out =
        (case decode (payload msg) of
           Inl e \<Rightarrow>
             (Raised e, out @ [MessageHeader (topic msg) (qos msg) (payload msg),
                               ReceivedHeader (topic msg) (qos msg)])
         | Inr text \<Rightarrow>
             (case loads text of
                Inl e \<Rightarrow>
                  (Raised e, out @ [MessageHeader (topic msg) (qos msg) (payload msg),
                                    ReceivedHeader (topic msg) (qos msg)])
              | Inr game_state \<Rightarrow>
                  process_game_state F game_state
                    (out @ [MessageHeader (topic msg) (qos msg) (payload msg),
                            ReceivedHeader (topic msg) (qos msg)])))) \<and>
   (\<forall>P. P \<noteq> [] \<and> CHR ''/'' \<notin> set P \<longrightarrow>
      spec_matches state_subscription (''games/'' @ main_lobby_name @ ''/'' @ P @ ''/game_state'')) \<and>
   (\<forall>P Q. \<not> inbound (''games/'' @ main_lobby_name @ ''/'' @ P @ ''/'' @ Q @ ''/game_state''))"
proof (intro conjI impI allI)
  assume "spec_matches lobby_subscription (topic msg)"
  then have "topic msg = ''games/TestLobby/lobby''"
    by (rule matches_lobby)
  then have "branch_of (topic msg) = GenericBranch"
    by (simp add: branch_of_def sublist_Cons_right)
  then show "on_message decode loads F msg out =
        (case decode (payload msg) of
           Inl e \<Rightarrow>
             (Raised e, out @ [MessageHeader (topic msg) (qos msg) (payload msg),
                               ReceivedHeader (topic msg) (qos msg)])
         | Inr text \<Rightarrow>
             (Returned, out @ [MessageHeader (topic msg) (qos msg) (payload msg),
                               ReceivedHeader (topic msg) (qos msg),
                               Text (''Message: '' @ text)]))"
    by (simp add: on_message_def print_py_def split: sum.splits)
next
  assume "spec_matches scores_subscription (topic msg)"
  then have "topic msg = ''games/TestLobby/scores''"
    by (rule matches_scores)
  then have "branch_of (topic msg) = ScoresBranch"
    by (simp add: branch_of_def sublist_Cons_right)
  then show "on_message decode loads F msg out =
        (case decode (payload msg) of
           Inl e \<Rightarrow>
             (Raised e, out @ [MessageHeader (topic msg) (qos msg) (payload msg),
                               ReceivedHeader (topic msg) (qos msg)])
         | Inr text \<Rightarrow>
             (Returned, out @ [MessageHeader (topic msg) (qos msg) (payload msg),
                               ReceivedHeader (topic msg) (qos msg),
                               Text (''Scores: '' @ text)]))"
    by (simp add: on_message_def print_py_def split: sum.splits)
next
  assume "spec_matches state_subscription (topic msg)"
  then obtain P where "topic msg = ''games/TestLobby/'' @ P @ ''/game_state''"
    using matches_state by blast
  then have "branch_of (topic msg) = StateBranch"
    by (simp only: branch_of_state_topic)
  then show "on_message decode loads F msg out =
        (case decode (payload msg) of
           Inl e \<Rightarrow>
             (Raised e, out @ [MessageHeader (topic msg) (qos msg) (payload msg),
                               ReceivedHeader (topic msg) (qos msg)])
         | Inr text \<Rightarrow>
             (case loads text of
                Inl e \<Rightarrow>
                  (Raised e, out @ [MessageHeader (topic msg) (qos msg) (payload msg),
                                    ReceivedHeader (topic msg) (qos msg)])
              | Inr game_state \<Rightarrow>
                  process_game_state F game_state
                    (out @ [MessageHeader (topic msg) (qos msg) (payload msg),
                            ReceivedHeader (topic msg) (qos msg)])))"
    by (simp add: on_message_def print_py_def split: sum.splits)
next
  fix P :: string
  assume "P \<noteq> [] \<and> CHR ''/'' \<notin> set P"
  then have "P \<noteq> []" and "CHR ''/'' \<notin> set P"
    by blast+
  then show "spec_matches state_subscription (''games/'' @ main_lobby_name @ ''/'' @ P @ ''/game_state'')"
    by (rule state_topic_matches)
next
  fix P Q :: string
  show "\<not> inbound (''games/'' @ main_lobby_name @ ''/'' @ P @ ''/'' @ Q @ ''/game_state'')"
    by (rule extra_segment_not_inbound)
qed

theorem inbound_routing_witness:
  "spec_matches state_subscription ''games/TestLobby/Player1/game_state'' \<and>
   on_message Inr (\<lambda>text. Inr (encode \<lparr>currentPosition = (3, 3), coins = [(3, 4)], walls = [(2, 3)]\<rparr>))
     whole_floats
     \<lparr>topic = ''games/TestLobby/Player1/game_state'', qos = 1, payload = ''{}''\<rparr> []
   = (Returned,
      [MessageHeader ''games/TestLobby/Player1/game_state'' 1 ''{}'',
       ReceivedHeader ''games/TestLobby/Player1/game_state'' 1,
       Text ''         '', Text ''    W    '', Text ''    P C  '',
       Text ''         '', Text ''         '', Text [CHR 0x0A]]) \<and>
   spec_matches lobby_subscription ''games/TestLobby/lobby'' \<and>
   on_message Inr (\<lambda>text. Inl JSONDecodeError) whole_floats
     \<lparr>topic = ''games/TestLobby/lobby'', qos = 1, payload = ''Player1 joined''\<rparr> []
   = (Returned,
      [MessageHeader ''games/TestLobby/lobby'' 1 ''Player1 joined'',
       ReceivedHeader ''games/TestLobby/lobby'' 1,
       Text ''Message: Player1 joined'']) \<and>
   \<not> inbound ''games/TestLobby/Player1/extra/game_state''"
proof -
  let ?st = "encode \<lparr>currentPosition = (3, 3), coins = [(3, 4)], walls = [(2, 3)]\<rparr> :: int pyval"
  let ?m1 = "\<lparr>topic = ''games/TestLobby/Player1/game_state'', qos = 1, payload = ''{}''\<rparr>"
  let ?m2 = "\<lparr>topic = ''games/TestLobby/lobby'', qos = 1, payload = ''Player1 joined''\<rparr>"
  have s1: "spec_matches state_subscription ''games/TestLobby/Player1/game_state''"
    by (simp add: spec_matches_def state_subscription_def main_lobby_name_def)
  have s2: "spec_matches lobby_subscription ''games/TestLobby/lobby''"
    by (simp add: spec_matches_def lobby_subscription_def main_lobby_name_def)
  have e: "process_game_state whole_floats ?st
        [MessageHeader ''games/TestLobby/Player1/game_state'' 1 ''{}'',
         ReceivedHeader ''games/TestLobby/Player1/game_state'' 1]
     = (Returned,
        [MessageHeader ''games/TestLobby/Player1/game_state'' 1 ''{}'',
         ReceivedHeader ''games/TestLobby/Player1/game_state'' 1,
         Text ''         '', Text ''    W    '', Text ''    P C  '',
         Text ''         '', Text ''         '', Text [CHR 0x0A]])"
    by code_simp
  have r1: "on_message Inr (\<lambda>text. Inr ?st) whole_floats ?m1 []
     = (Returned,
        [MessageHeader ''games/TestLobby/Player1/game_state'' 1 ''{}'',
         ReceivedHeader ''games/TestLobby/Player1/game_state'' 1,
         Text ''         '', Text ''    W    '', Text ''    P C  '',
         Text ''         '', Text ''         '', Text [CHR 0x0A]])"
    using inbound_routing [of ?m1 Inr "\<lambda>text. Inr ?st" whole_floats "[]"] s1 e
    by simp
  have r2: "on_message Inr (\<lambda>text. Inl JSONDecodeError) whole_floats ?m2 []
     = (Returned,
        [MessageHeader ''games/TestLobby/lobby'' 1 ''Player1 joined'',
         ReceivedHeader ''games/TestLobby/lobby'' 1,
         Text ''Message: Player1 joined''])"
    using inbound_routing [of ?m2 Inr "\<lambda>text. Inl JSONDecodeError" whole_floats "[]"] s2
    by simp
  have r3: "\<not> inbound ''games/TestLobby/Player1/extra/game_state''"
    using inbound_routing [of ?m1 Inr "\<lambda>text. Inr ?st" whole_floats "[]",
        THEN conjunct2, THEN conjunct2, THEN conjunct2, THEN conjunct2, rule_format,
        of "''Player1''" "''extra''"]
    by (simp add: main_lobby_name_def)
  from s1 r1 s2 r2 r3 show ?thesis by blast
qed



text \<open>
  C6 at a snapshot where a coin and a wall both project to the cell \<open>(3,3)\<close> and
  a second coin lies far away: the far coin's row index 12 raises
  \<^verbatim>\<open>IndexError\<close> in the coin loop, so only the error report is printed and no
  cell shows the wall. Without the far coin the same cell shows \<open>W\<close>.
\<close>

theorem out_of_range_coin_hides_wall:
  "process_game_state whole_floats
     (encode \<lparr>currentPosition = (0, 0), coins = [(1, 1), (10, 10)], walls = [(1, 1)]\<rparr>) []
     = (Returned, [ErrorReport IndexError]) \<and>
   process_game_state whole_floats
     (encode \<lparr>currentPosition = (0, 0), coins = [(1, 1)], walls = [(1, 1)]\<rparr>) []
     = (Returned, [Text ''         '', Text ''         '', Text ''    P    '',
                   Text ''      W  '', Text ''         '', Text [CHR 0x0A]])"
  by code_simp

text \<open>
  C7. A line whose upper-case form is \<^verbatim>\<open>STOP\<close> publishes \<^verbatim>\<open>"STOP"\<close> on
  \<^verbatim>\<open>games/{lobby}/start\<close>, nothing on the move topic, and the function
  returns, leaving the rest of the input unread.
\<close>

theorem stop_ends_loop:
  assumes "upper t = ''STOP''"
  shows "user_input_control upper player lobby (Line t # rest) w =
         (Returned, rest,
          w\<lparr>stdout := stdout w @ [Prompt player],
            published := published w @ [(''games/'' @ lobby @ ''/start'', ''STOP'')]\<rparr>)"
  using assms by (simp add: Let_def emit_def publish_def print_py_def)

theorem stop_ends_loop_witness:
  "ascii_upper ''Stop'' = ''STOP'' \<and>
   user_input_control ascii_upper ''Player1'' ''TestLobby'' [Line ''Stop'', Line ''up'']
     \<lparr>stdout = [], published = []\<rparr> =
   (Returned, [Line ''up''],
    \<lparr>stdout = [Prompt ''Player1''], published = [(''games/TestLobby/start'', ''STOP'')]\<rparr>)"
proof -
  have u: "ascii_upper ''Stop'' = ''STOP''"
    by (simp add: ascii_upper_def)
  from stop_ends_loop [of ascii_upper "''Stop''" "''Player1''" "''TestLobby''" "[Line ''up'']"
      "\<lparr>stdout = [], published = []\<rparr>"] u
  show ?thesis by simp
qed

text \<open>
  C8. For every snapshot, rendering it twice prints the same lines twice: there
  is a list \<open>items\<close> that the first call appends to whatever was printed before
  and that the second call appends again. The lines are those of the grid the
  snapshot determines, cell by cell, when every coin has valid indices, and the
  single error report otherwise.
\<close>

theorem same_snapshot_same_output:
  "\<exists>items.
     process_game_state F (encode s) out = (Returned, out @ items) \<and>
     process_game_state F (encode s) (out @ items) = (Returned, out @ items @ items) \<and>
     (if \<forall>c\<in>set (coins s). indexable (projected s c)
      then \<exists>g. well_shaped g \<and> items = grid_lines g \<and>
             (\<forall>i<5. \<forall>j<5. g ! i ! j =
                (if \<exists>w\<in>set (walls s). projected s w = (int i, int j) then CHR ''W''
                 else if \<exists>c\<in>set (coins s). wrapped (projected s c) = (i, j) then CHR ''C''
                 else if i = 2 \<and> j = 2 then CHR ''P'' else CHR '' ''))
      else items = [ErrorReport IndexError])"
proof (cases "\<forall>c\<in>set (coins s). indexable (projected s c)")
  case True
  then have ok: "list_all (\<lambda>c. indexable (projected s c)) (coins s)"
    by (simp add: list_all_iff)
  from renders [OF ok, of F] obtain g where
    ws: "well_shaped g"
    and pr: "\<forall>out. process_game_state F (encode s) out = (Returned, out @ grid_lines g)"
    and cells: "\<forall>i<5. \<forall>j<5. g ! i ! j =
        (if \<exists>w\<in>set (walls s). projected s w = (int i, int j) then CHR ''W''
         else if \<exists>c\<in>set (coins s). wrapped (projected s c) = (i, j) then CHR ''C''
         else if i = 2 \<and> j = 2 then CHR ''P'' else CHR '' '')"
    by blast
  have 1: "process_game_state F (encode s) out = (Returned, out @ grid_lines g)"
    using pr by blast
  have 2: "process_game_state F (encode s) (out @ grid_lines g)
           = (Returned, out @ grid_lines g @ grid_lines g)"
    using pr [rule_format, of "out @ grid_lines g"] by simp
  show ?thesis
  proof (intro exI [of _ "grid_lines g"] conjI)
    show "if \<forall>c\<in>set (coins s). indexable (projected s c)
      then \<exists>g'. well_shaped g' \<and> grid_lines g = grid_lines g' \<and>
             (\<forall>i<5. \<forall>j<5. g' ! i ! j =
                (if \<exists>w\<in>set (walls s). projected s w = (int i, int j) then CHR ''W''
                 else if \<exists>c\<in>set (coins s). wrapped (projected s c) = (i, j) then CHR ''C''
                 else if i = 2 \<and> j = 2 then CHR ''P'' else CHR '' ''))
      else grid_lines g = [ErrorReport IndexError]"
    proof -
      have "\<exists>g'. well_shaped g' \<and> grid_lines g = grid_lines g' \<and>
             (\<forall>i<5. \<forall>j<5. g' ! i ! j =
                (if \<exists>w\<in>set (walls s). projected s w = (int i, int j) then CHR ''W''
                 else if \<exists>c\<in>set (coins s). wrapped (projected s c) = (i, j) then CHR ''C''
                 else if i = 2 \<and> j = 2 then CHR ''P'' else CHR '' ''))"
        using ws cells by blast
      with True show ?thesis by presburger
    qed
  qed (rule 1, rule 2)
next
  case False
  then have bad: "\<not> list_all (\<lambda>c. indexable (projected s c)) (coins s)"
    by (simp add: list_all_iff)
  have 1: "process_game_state F (encode s) out = (Returned, out @ [ErrorReport IndexError])"
    using bad by (rule render_fails)
  have 2: "process_game_state F (encode s) (out @ [ErrorReport IndexError])
           = (Returned, out @ [ErrorReport IndexError] @ [ErrorReport IndexError])"
    using render_fails [OF bad, of F "out @ [ErrorReport IndexError]"] by simp
  show ?thesis
  proof (intro exI [of _ "[ErrorReport IndexError]"] conjI)
    show "if \<forall>c\<in>set (coins s). indexable (projected s c)
      then \<exists>g. well_shaped g \<and> [ErrorReport IndexError] = grid_lines g \<and>
             (\<forall>i<5. \<forall>j<5. g ! i ! j =
                (if \<exists>w\<in>set (walls s). projected s w = (int i, int j) then CHR ''W''
                 else if \<exists>c\<in>set (coins s). wrapped (projected s c) = (i, j) then CHR ''C''
                 else if i = 2 \<and> j = 2 then CHR ''P'' else CHR '' ''))
      else [ErrorReport IndexError] = [ErrorReport IndexError]"
      using False by presburger
  qed (rule 1, rule 2)
qed

theorem same_snapshot_same_output_witness:
  "process_game_state whole_floats
     (encode \<lparr>currentPosition = (3, 3), coins = [(3, 4)], walls = [(2, 3)]\<rparr>)
     [Text ''earlier'']
   = (Returned, [Text ''earlier'', Text ''         '', Text ''    W    '', Text ''    P C  '',
                 Text ''         '', Text ''         '', Text [CHR 0x0A]]) \<and>
   process_game_state whole_floats
     (encode \<lparr>currentPosition = (3, 3), coins = [(3, 4)], walls = [(2, 3)]\<rparr>)
     [Text ''earlier'', Text ''         '', Text ''    W    '', Text ''    P C  '',
      Text ''         '', Text ''         '', Text [CHR 0x0A]]
   = (Returned, [Text ''earlier'', Text ''         '', Text ''    W    '', Text ''    P C  '',
                 Text ''         '', Text ''         '', Text [CHR 0x0A],
                 Text ''         '', Text ''    W    '', Text ''    P C  '',
                 Text ''         '', Text ''         '', Text [CHR 0x0A]])"
proof -
  let ?st = "encode \<lparr>currentPosition = (3, 3), coins = [(3, 4)], walls = [(2, 3)]\<rparr> :: int pyval"
  let ?lines = "[Text ''         '', Text ''    W    '', Text ''    P C  '',
                 Text ''         '', Text ''         '', Text [CHR 0x0A]]"
  from same_snapshot_same_output [of whole_floats _ "[Text ''earlier'']"]
  obtain items where
    1: "process_game_state whole_floats ?st [Text ''earlier''] = (Returned, [Text ''earlier''] @ items)"
    and 2: "process_game_state whole_floats ?st ([Text ''earlier''] @ items)
            = (Returned, [Text ''earlier''] @ items @ items)"
    by blast
  have "process_game_state whole_floats ?st [Text ''earlier''] = (Returned, [Text ''earlier''] @ ?lines)"
    by code_simp
  with 1 have "items = ?lines"
    by simp
  with 1 2 show ?thesis
    by simp
qed

text \<open>
  C9. For every decoded value, whatever the float arithmetic, the function
  returns normally and has printed either a complete grid (five lines of five
  cells, each cell one of the four markers, and the closing line) or exactly one
  error report; no exception leaves it.
\<close>

theorem process_game_state_total:
  "(\<exists>g. well_shaped g \<and>
        (\<forall>row\<in>set g. set row \<subseteq> {CHR '' '', CHR ''P'', CHR ''C'', CHR ''W''}) \<and>
        process_game_state F state out = (Returned, out @ grid_lines g)) \<or>
   (\<exists>e. is_Exception e \<and>
        process_game_state F state out = (Returned, out @ [ErrorReport e]))"
proof (cases "build_grid F state")
  case (Inl e)
  then have "is_Exception e" by (rule build_grid_raises)
  with Inl have "is_Exception e \<and>
      process_game_state F state out = (Returned, out @ [ErrorReport e])"
    by (simp add: process_game_state_def print_py_def)
  then show ?thesis by blast
next
  case (Inr g)
  then have "well_shaped g \<and>
        (\<forall>row\<in>set g. set row \<subseteq> {CHR '' '', CHR ''P'', CHR ''C'', CHR ''W''}) \<and>
        process_game_state F state out = (Returned, out @ grid_lines g)"
    using build_grid_shape build_grid_marks renders_any by blast
  then show ?thesis by blast
qed

theorem process_game_state_total_witness:
  "process_game_state whole_floats (PList []) [Text ''earlier'']
     = (Returned, [Text ''earlier'', ErrorReport AttributeError]) \<and>
   process_game_state whole_floats
     (PDict [(''coins'', PList [PList [PInt 1, PInt 2]]),
             (''currentPosition'', PList [PInt 1, PInt 1])]) [Text ''earlier'']
     = (Returned, [Text ''earlier'', Text ''         '', Text ''         '', Text ''    P C  '',
                   Text ''         '', Text ''         '', Text [CHR 0x0A]])"
proof -
  let ?bad = "PList [] :: int pyval"
  let ?good = "PDict [(''coins'', PList [PList [PInt 1, PInt 2]]),
                      (''currentPosition'', PList [PInt 1, PInt 1])] :: int pyval"
  have b: "build_grid whole_floats ?bad = Inl AttributeError"
    by code_simp
  have g: "build_grid whole_floats ?good
     = Inr [''     '', ''     '', ''  PC '', ''     '', ''     '']"
    by code_simp
  from process_game_state_total [of whole_floats ?bad "[Text ''earlier'']"] b
  have 1: "process_game_state whole_floats ?bad [Text ''earlier'']
     = (Returned, [Text ''earlier'', ErrorReport AttributeError])"
    by (auto simp: process_game_state_def print_py_def)
  from process_game_state_total [of whole_floats ?good "[Text ''earlier'']"] g
  have 2: "process_game_state whole_floats ?good [Text ''earlier'']
     = (Returned, [Text ''earlier'', Text ''         '', Text ''         '', Text ''    P C  '',
                   Text ''         '', Text ''         '', Text [CHR 0x0A]])"
    by (auto simp: process_game_state_def print_py_def print_grid_def)
  from 1 2 show ?thesis by blast
qed




end
